theory Spec2Isabelle
  imports Main "HOL-Library.Sublist"
begin

section \<open>Language resolution and translation loading (src/util/common-translation.ts)\<close>

text \<open>
  The module has two halves. The resolver (\<open>findAvailableLanguage\<close>,
  \<open>getLocalLanguage\<close>) is string code over a table of supported languages. The
  fetcher (\<open>fetchTranslation\<close>, \<open>getTranslation\<close>) keeps a cache of promises, one per
  fingerprint, and talks to the network.

  Conventions of the embedding.
  \<^item> The module is dynamically typed where it matters: \<open>JSON.parse\<close> yields any value,
    \<open>navigator.language\<close> can be \<open>undefined\<close>, and a property read can yield a value that
    an object inherits. The values that reach the code are a \<open>js_value\<close>; an exception is
    an \<open>error\<close>, and a function that can throw returns \<open>error + 'a\<close>.
  \<^item> \<open>translationMetadata.translations\<close> is imported from a file outside this module, so
    it is a parameter \<open>md\<close>: an association list from language code to its metadata, in
    the order \<open>Object.keys\<close> lists the codes. It is a plain object, as the literal
    \<open>LOCALE_LOOKUP\<close> is: the operator \<open>in\<close> and a property read also find the names that
    every object inherits from \<open>Object.prototype\<close>.
  \<^item> \<open>toLowerCase\<close> is modelled on the ASCII letters; every other character is kept.
\<close>

subsection \<open>Values and errors\<close>

text \<open>
  \<open>TypeError\<close> is thrown by a call of \<open>toLowerCase\<close> on a value that has no such method
  and by a failing conversion to a property key. \<open>Error msg\<close> is \<open>new Error(msg)\<close>.
  \<open>HttpStatusError fp status\<close> is the error \<open>fetchTranslation\<close> throws on a response
  that is not ok, whose message names the fingerprint and the status. \<open>Failure\<close> is
  whatever \<open>fetch\<close> or \<open>response.json()\<close> rejects with.
\<close>

datatype error = TypeError | Error string | HttpStatusError string nat | Failure string

text \<open>
  A value that the environment or \<open>JSON.parse\<close> hands to the code: \<open>undefined\<close>, a
  string, or any other value (\<open>null\<close>, a boolean, a number, an array, an object). Of such
  a value the code observes the property key that the operator \<open>in\<close> converts it to
  (\<open>None\<close> when the conversion throws) and its truthiness; none has a method
  \<open>toLowerCase\<close>.
\<close>

datatype js_value = Undefined | Str string | Other "string option" bool

fun property_key :: "js_value \<Rightarrow> string option" where
  "property_key Undefined = Some ''undefined''"
| "property_key (Str s) = Some s"
| "property_key (Other key t) = key"

fun is_truthy :: "js_value \<Rightarrow> bool" where
  "is_truthy Undefined = False"
| "is_truthy (Str s) = (s \<noteq> [])"
| "is_truthy (Other key t) = t"

text \<open>
  The property names of \<open>Object.prototype\<close> in a browser. Their values are functions,
  and the prototype object itself for \<open>__proto__\<close>: truthy values that are not strings
  and have no property \<open>hash\<close>.
\<close>

definition Object_prototype :: "string list" where
  "Object_prototype =
     [''constructor'', ''__defineGetter__'', ''__defineSetter__'', ''hasOwnProperty'',
      ''__lookupGetter__'', ''__lookupSetter__'', ''isPrototypeOf'', ''propertyIsEnumerable'',
      ''toString'', ''valueOf'', ''__proto__'', ''toLocaleString'']"

definition inherited :: "string \<Rightarrow> bool" where
  "inherited name = (name \<in> set Object_prototype)"

text \<open>
  What \<open>findAvailableLanguage\<close> returns: a value as above, or the value that a plain
  object inherits under a name.
\<close>

datatype found = Value js_value | Inherited string

fun truthy :: "found \<Rightarrow> bool" where
  "truthy (Value v) = is_truthy v"
| "truthy (Inherited name) = True"

subsection \<open>The supported-language table\<close>

record language_metadata =
  hash :: string

type_synonym translations_metadata = "(string \<times> language_metadata) list"

text \<open>The code is a key of the table, that is, one of \<open>Object.keys\<close>.\<close>

definition has_language :: "translations_metadata \<Rightarrow> string \<Rightarrow> bool" where
  "has_language md language = (language \<in> set (map fst md))"

text \<open>\<open>key in translationMetadata.translations\<close>: an own key or an inherited name.\<close>

definition in_translations :: "translations_metadata \<Rightarrow> string \<Rightarrow> bool" where
  "in_translations md key = (has_language md key \<or> inherited key)"

subsection \<open>Strings\<close>

definition lower_char :: "char \<Rightarrow> char" where
  "lower_char c =
     (case map_of (zip ''ABCDEFGHIJKLMNOPQRSTUVWXYZ'' ''abcdefghijklmnopqrstuvwxyz'') c of
        Some l \<Rightarrow> l
      | None \<Rightarrow> c)"

definition toLowerCase :: "string \<Rightarrow> string" where
  "toLowerCase s = map lower_char s"

text \<open>\<open>s.includes("-")\<close> and \<open>s.split("-")[0]\<close>\<close>

definition includes_hyphen :: "string \<Rightarrow> bool" where
  "includes_hyphen s = (CHR ''-'' \<in> set s)"

definition before_hyphen :: "string \<Rightarrow> string" where
  "before_hyphen s = takeWhile (\<lambda>c. c \<noteq> CHR ''-'') s"

subsection \<open>findAvailableLanguage\<close>

text \<open>Chinese locales need map to Simplified or Traditional Chinese.\<close>

definition LOCALE_LOOKUP :: "(string \<times> string) list" where
  "LOCALE_LOOKUP =
     [(''zh-cn'', ''zh-Hans''),
      (''zh-sg'', ''zh-Hans''),
      (''zh-my'', ''zh-Hans''),
      (''zh-tw'', ''zh-Hant''),
      (''zh-hk'', ''zh-Hant''),
      (''zh-mo'', ''zh-Hant''),
      (''zh'', ''zh-Hant'')]"

text \<open>
  Three steps, in the order of the source.
  \<^item> \<open>language in translationMetadata.translations\<close> converts the argument to a property
    key; when the table has it, as an own key or an inherited name, the argument itself is
    returned.
  \<^item> \<open>language.toLowerCase()\<close> throws on an argument that is not a string. Then
    \<open>langLower in LOCALE_LOOKUP\<close> holds for the seven own keys of the literal and for
    the inherited names, and \<open>LOCALE_LOOKUP[langLower]\<close> is the mapped code or the
    inherited value.
  \<^item> At last the first of \<open>Object.keys\<close> that equals the code when both are
    lower-cased, and \<open>undefined\<close> when \<open>Array.prototype.find\<close> finds none.
\<close>

definition findAvailableLanguage :: "translations_metadata \<Rightarrow> js_value \<Rightarrow> error + found" where
  "findAvailableLanguage md language =
     (case property_key language of
        None \<Rightarrow> Inl TypeError
      | Some key \<Rightarrow>
          if in_translations md key then Inr (Value language)
          else
            (case language of
               Str s \<Rightarrow>
                 let langLower = toLowerCase s in
                 (case map_of LOCALE_LOOKUP langLower of
                    Some mapped \<Rightarrow> Inr (Value (Str mapped))
                  | None \<Rightarrow>
                      if inherited langLower then Inr (Inherited langLower)
                      else
                        (case find (\<lambda>lang. toLowerCase lang = langLower) (map fst md) of
                           Some lang \<Rightarrow> Inr (Value (Str lang))
                         | None \<Rightarrow> Inr (Value Undefined)))
             | _ \<Rightarrow> Inl TypeError))"

subsection \<open>getLocalLanguage\<close>

text \<open>
  What \<open>getLocalLanguage\<close> reads from its environment: the entry \<open>selectedLanguage\<close> of
  the local store (\<open>None\<close> when the store has none, or when there is no store at all and
  \<open>STORAGE\<close> is the empty object), \<open>navigator.languages\<close> (\<open>None\<close> in a browser that
  does not have it) and \<open>navigator.language\<close> (\<open>None\<close> when it is \<open>undefined\<close>).

  \<open>JSON.parse\<close> is a parameter \<open>parse\<close>: \<open>parse s = None\<close> when \<open>JSON.parse(s)\<close> throws,
  and \<open>parse s = Some v\<close> when it yields the value \<open>v\<close>.
\<close>

record browser =
  selectedLanguage :: "string option"
  navigator_languages :: "string list option"
  navigator_language :: "string option"

text \<open>
  The block guarded by \<open>if (STORAGE.selectedLanguage)\<close>: \<open>Some l\<close> when it returns \<open>l\<close>
  from \<open>getLocalLanguage\<close>, \<open>None\<close> when control falls out of it, also through the
  \<open>catch\<close>, which ignores whatever \<open>JSON.parse\<close> or \<open>findAvailableLanguage\<close> throws.
\<close>

definition stored_language ::
  "(string \<Rightarrow> js_value option) \<Rightarrow> translations_metadata \<Rightarrow> string option \<Rightarrow> found option" where
  "stored_language parse md entry =
     (case entry of
        None \<Rightarrow> None
      | Some s \<Rightarrow>
          if s = [] then None
          else
            (case parse s of
               None \<Rightarrow> None
             | Some stored \<Rightarrow>
                 if \<not> is_truthy stored then None
                 else
                   (case findAvailableLanguage md stored of
                      Inl e \<Rightarrow> None
                    | Inr language \<Rightarrow> if truthy language then Some language else None)))"

text \<open>
  The loop \<open>for (const locale of navigator.languages)\<close>: \<open>Inr (Some l)\<close> when it returns
  \<open>l\<close> from \<open>getLocalLanguage\<close>, \<open>Inr None\<close> when it ends.
\<close>

fun first_locale :: "translations_metadata \<Rightarrow> string list \<Rightarrow> error + found option" where
  "first_locale md [] = Inr None"
| "first_locale md (locale # rest) =
     (case findAvailableLanguage md (Str locale) of
        Inl e \<Rightarrow> Inl e
      | Inr language \<Rightarrow> if truthy language then Inr (Some language) else first_locale md rest)"

definition getLocalLanguage ::
  "(string \<Rightarrow> js_value option) \<Rightarrow> translations_metadata \<Rightarrow> browser \<Rightarrow> error + found" where
  "getLocalLanguage parse md b =
     (case stored_language parse md (selectedLanguage b) of
        Some language \<Rightarrow> Inr language
      | None \<Rightarrow>
     (case (case navigator_languages b of
              None \<Rightarrow> Inr None
            | Some locales \<Rightarrow> first_locale md locales) of
        Inl e \<Rightarrow> Inl e
      | Inr (Some language) \<Rightarrow> Inr language
      | Inr None \<Rightarrow>
     (case findAvailableLanguage md
             (case navigator_language b of None \<Rightarrow> Undefined | Some l \<Rightarrow> Str l) of
        Inl e \<Rightarrow> Inl e
      | Inr language \<Rightarrow>
          if truthy language then Inr language
          else
     (case navigator_language b of
        None \<Rightarrow> Inr (Value (Str ''en''))
      | Some l \<Rightarrow>
          if l \<noteq> [] \<and> includes_hyphen l
          then
            (case findAvailableLanguage md (Str (before_hyphen l)) of
               Inl e \<Rightarrow> Inl e
             | Inr language' \<Rightarrow>
                 if truthy language' then Inr language' else Inr (Value (Str ''en'')))
          else Inr (Value (Str ''en''))))))"

text \<open>
  The signals of \<open>getLocalLanguage\<close> as the specification lists them, in its order: the
  stored selection and the entries of the preferred-language list (\<open>earlier_signals\<close>),
  then the primary language, and the primary language's base subtag when the primary
  language has a hyphen. A signal resolves when \<open>findAvailableLanguage\<close> returns a truthy
  value for it. The first signal that resolves wins, and \<open>en\<close> is the fallback.
\<close>

definition earlier_signals :: "(string \<Rightarrow> js_value option) \<Rightarrow> browser \<Rightarrow> js_value list" where
  "earlier_signals parse b =
     (case selectedLanguage b of
        None \<Rightarrow> []
      | Some s \<Rightarrow>
          if s = [] then []
          else (case parse s of None \<Rightarrow> [] | Some stored \<Rightarrow> [stored]))
     @ (case navigator_languages b of None \<Rightarrow> [] | Some locales \<Rightarrow> map Str locales)"

definition signals :: "(string \<Rightarrow> js_value option) \<Rightarrow> browser \<Rightarrow> js_value list" where
  "signals parse b =
     earlier_signals parse b
     @ (case navigator_language b of
          None \<Rightarrow> [Undefined]
        | Some l \<Rightarrow> Str l # (if includes_hyphen l then [Str (before_hyphen l)] else []))"

definition resolves :: "translations_metadata \<Rightarrow> js_value \<Rightarrow> found option" where
  "resolves md signal =
     (case findAvailableLanguage md signal of
        Inl e \<Rightarrow> None
      | Inr language \<Rightarrow> if truthy language then Some language else None)"

definition first_resolved :: "translations_metadata \<Rightarrow> js_value list \<Rightarrow> found option" where
  "first_resolved md candidates =
     (case List.map_filter (resolves md) candidates of
        [] \<Rightarrow> None
      | language # _ \<Rightarrow> Some language)"

definition getLocalLanguage_spec ::
  "(string \<Rightarrow> js_value option) \<Rightarrow> translations_metadata \<Rightarrow> browser \<Rightarrow> found" where
  "getLocalLanguage_spec parse md b =
     (case first_resolved md (signals parse b) of
        None \<Rightarrow> Value (Str ''en'')
      | Some language \<Rightarrow> language)"

text \<open>
  A sample \<open>JSON.parse\<close> for the examples: it reads a string literal without escapes and
  rejects every other text.
\<close>

definition parse_string_literal :: "string \<Rightarrow> js_value option" where
  "parse_string_literal s =
     (if 2 \<le> length s \<and> hd s = CHR 0x22 \<and> last s = CHR 0x22
         \<and> (\<forall>c \<in> set (butlast (tl s)). c \<noteq> CHR 0x22 \<and> c \<noteq> CHR 0x5C \<and> (32::nat) \<le> of_char c)
      then Some (Str (butlast (tl s))) else None)"

subsection \<open>A sample table\<close>

definition example_metadata :: translations_metadata where
  "example_metadata =
     [(''en'', \<lparr>hash = ''abc''\<rparr>),
      (''de'', \<lparr>hash = ''d41d8c''\<rparr>),
      (''pt-BR'', \<lparr>hash = ''0cc175''\<rparr>)]"

section \<open>The fetcher\<close>

text \<open>
  \<open>getTranslation\<close> and \<open>fetchTranslation\<close> are asynchronous. JavaScript runs each piece
  of code between two suspension points to its end before anything else runs, so the model
  has two kinds of atomic step on the state of the module: a call of \<open>getTranslation\<close>,
  up to the point where it returns its promise, and the arrival of the network's answer to
  a request in flight, with the \<open>then\<close> and \<open>catch\<close> handlers that run on it. The state
  is the object \<open>translations\<close> together with every request issued so far and the
  promise the cache holds for it.
\<close>

subsection \<open>Fingerprints and paths\<close>

text \<open>\<open>fragment ? fragment + "/" : ""\<close>: \<open>null\<close> and the empty string are falsy.\<close>

definition fragment_part :: "string option \<Rightarrow> string" where
  "fragment_part fragment =
     (case fragment of
        None \<Rightarrow> []
      | Some f \<Rightarrow> if f = [] then [] else f @ ''/'')"

definition fingerprint :: "string option \<Rightarrow> string \<Rightarrow> language_metadata \<Rightarrow> string" where
  "fingerprint fragment language metadata =
     fragment_part fragment @ language @ ''-'' @ hash metadata @ ''.json''"

text \<open>
  \<open>s.replace(pattern, replacement)\<close> with a string pattern: the first occurrence of the
  pattern in \<open>s\<close>, wherever it stands, is replaced, and \<open>s\<close> is returned as it is when
  there is none. (The source's replacement is the empty string, so the \<open>$\<close> patterns of
  a replacement play no part.)
\<close>

fun String_replace :: "string \<Rightarrow> string \<Rightarrow> string \<Rightarrow> string" where
  "String_replace [] pattern replacement = (if pattern = [] then replacement else [])"
| "String_replace (c # cs) pattern replacement =
     (if prefix pattern (c # cs) then replacement @ drop (length pattern) (c # cs)
      else c # String_replace cs pattern replacement)"

text \<open>The path \<open>fetchTranslation\<close> gives to \<open>fetch\<close>.\<close>

definition fetch_path :: "string \<Rightarrow> bool \<Rightarrow> string" where
  "fetch_path fp supervisor =
     (if supervisor
      then ''/api/hassio/app/static/translations/'' @ String_replace fp ''supervisor/'' []
      else ''/static/translations/'' @ fp)"

text \<open>
  The supervisor path as the specification words it: the literal prefix \<open>supervisor/\<close>
  is stripped from the fragment part \<open><fragment/>\<close> of the path template.
\<close>

definition strip_prefix :: "string \<Rightarrow> string \<Rightarrow> string" where
  "strip_prefix p s = (if prefix p s then drop (length p) s else s)"

definition supervisor_path_spec :: "string option \<Rightarrow> string \<Rightarrow> language_metadata \<Rightarrow> string" where
  "supervisor_path_spec fragment language metadata =
     ''/api/hassio/app/static/translations/''
       @ strip_prefix ''supervisor/'' (fragment_part fragment)
       @ language @ ''-'' @ hash metadata @ ''.json''"

subsection \<open>Answers and promises\<close>

record response =
  ok :: bool
  status :: nat
  json :: "error + string"

text \<open>The outcome of \<open>await fetch(...)\<close>: the promise rejects, or resolves to a response.\<close>

datatype fetched = Rejects error | Resolves response

text \<open>
  What the promise of \<open>fetchTranslation\<close> settles to, given the outcome of its \<open>fetch\<close>:
  \<open>Inl\<close> the error it rejects with, \<open>Inr\<close> the parsed body.
\<close>

definition fetchTranslation :: "string \<Rightarrow> fetched \<Rightarrow> error + string" where
  "fetchTranslation fp outcome =
     (case outcome of
        Rejects e \<Rightarrow> Inl e
      | Resolves r \<Rightarrow> if \<not> ok r then Inl (HttpStatusError fp (status r)) else json r)"

text \<open>
  A promise of the cache: pending, fulfilled with the object \<open>{ language, data }\<close>,
  rejected, or resolved with another promise of the cache, which it then follows.
\<close>

datatype promise = Pending | Fulfilled string string | Rejected error | Follows nat

text \<open>
  A request: the path given to \<open>fetch\<close>, the variables its handlers close over, and the
  promise \<open>fetchTranslation(...).then(...).catch(...)\<close> that the cache holds for it. The
  requests are numbered in the order they are issued, and a request's number names its
  promise. Every request is sent with \<open>credentials: "same-origin"\<close>, which is left out.
\<close>

record request =
  req_path :: string
  req_fingerprint :: string
  req_fragment :: "string option"
  req_language :: string
  req_supervisor :: bool
  req_promise :: promise

text \<open>
  The object \<open>translations\<close> is read and written under fingerprints only. A fingerprint
  ends in \<open>.json\<close>, so it is none of the names that the object inherits, and the object is
  a map from fingerprints to promises.
\<close>

record cache =
  "translations" :: "string \<rightharpoonup> nat"
  requests :: "request list"

definition empty_cache :: cache where
  "empty_cache = \<lparr>translations = Map.empty, requests = []\<rparr>"

text \<open>
  What a call of the async function \<open>getTranslation\<close> hands to its caller: a promise
  rejected with the error thrown, or a promise resolved with a promise of the cache.
\<close>

datatype translation_promise = Thrown error | Cached nat

subsection \<open>getTranslation\<close>

text \<open>
  \<open>translationMetadata.translations[language]\<close>, as far as \<open>getTranslation\<close> uses the
  value it reads: \<open>None\<close> when the value is \<open>undefined\<close>, which the test \<open>!metadata\<close>
  takes; the metadata of an own key; and for a name that the table inherits from
  \<open>Object.prototype\<close> a truthy value without a property \<open>hash\<close>, which the template
  writes as the text \<open>undefined\<close>.
\<close>

definition metadata_read :: "translations_metadata \<Rightarrow> string \<Rightarrow> language_metadata option" where
  "metadata_read md language =
     (case map_of md language of
        Some metadata \<Rightarrow> Some metadata
      | None \<Rightarrow> if inherited language then Some \<lparr>hash = ''undefined''\<rparr> else None)"

function getTranslation ::
  "translations_metadata \<Rightarrow> string option \<Rightarrow> string \<Rightarrow> bool \<Rightarrow> cache
     \<Rightarrow> translation_promise \<times> cache" where
  "getTranslation md fragment language supervisor st =
     (case metadata_read md language of
        None \<Rightarrow>
          if language \<noteq> ''en'' then getTranslation md fragment ''en'' supervisor st
          else (Thrown (Error ''Language en is not found in metadata''), st)
      | Some metadata \<Rightarrow>
          let fp = fingerprint fragment language metadata in
          (case translations st fp of
             None \<Rightarrow>
               (Cached (length (requests st)),
                st\<lparr>translations := (translations st)(fp \<mapsto> length (requests st)),
                   requests := requests st @
                     [\<lparr>req_path = fetch_path fp supervisor, req_fingerprint = fp,
                       req_fragment = fragment, req_language = language,
                       req_supervisor = supervisor, req_promise = Pending\<rparr>]\<rparr>)
           | Some p \<Rightarrow> (Cached p, st)))"
  by pat_completeness auto
termination
  by (relation "measure (\<lambda>(md, fragment, language, supervisor, st).
        if language = ''en'' then 0 else 1)") auto

subsection \<open>The handlers\<close>

definition settle :: "nat \<Rightarrow> promise \<Rightarrow> cache \<Rightarrow> cache" where
  "settle i p st = st\<lparr>requests := (requests st)[i := (requests st ! i)\<lparr>req_promise := p\<rparr>]\<rparr>"

definition in_flight :: "cache \<Rightarrow> nat \<Rightarrow> bool" where
  "in_flight st i = (i < length (requests st) \<and> req_promise (requests st ! i) = Pending)"

text \<open>What a promise of the cache is resolved with when a handler returns the promise of a call.\<close>

definition resolved_with :: "translation_promise \<Rightarrow> promise" where
  "resolved_with r = (case r of Thrown e \<Rightarrow> Rejected e | Cached q \<Rightarrow> Follows q)"

text \<open>
  The network's answer to request \<open>i\<close> arrives. On success the \<open>then\<close> handler fulfils
  the promise with \<open>{ language, data }\<close>. On any failure the \<open>catch\<close> handler deletes
  \<open>translations[fingerprint]\<close> and then, for a language other than \<open>en\<close>, returns
  \<open>getTranslation(fragment, "en", supervisor)\<close>, and rejects with the error otherwise.
  Only a request in flight is answered.
\<close>

definition on_fetched :: "translations_metadata \<Rightarrow> nat \<Rightarrow> fetched \<Rightarrow> cache \<Rightarrow> cache" where
  "on_fetched md i outcome st =
     (if \<not> in_flight st i then st
      else
        let r = requests st ! i in
        case fetchTranslation (req_fingerprint r) outcome of
          Inr data \<Rightarrow> settle i (Fulfilled (req_language r) data) st
        | Inl e \<Rightarrow>
            let st1 = st\<lparr>translations := (translations st)(req_fingerprint r := None)\<rparr> in
            if req_language r \<noteq> ''en''
            then
              (case getTranslation md (req_fragment r) ''en'' (req_supervisor r) st1 of
                 (result, st2) \<Rightarrow> settle i (resolved_with result) st2)
            else settle i (Rejected e) st1)"

text \<open>
  What a caller that awaits promise \<open>i\<close> of the cache observes: the promise at the end
  of the chain of promises that \<open>i\<close> follows.
\<close>

fun follow :: "nat \<Rightarrow> request list \<Rightarrow> nat \<Rightarrow> promise" where
  "follow 0 rs i = Pending"
| "follow (Suc n) rs i =
     (if i < length rs
      then (case req_promise (rs ! i) of Follows q \<Rightarrow> follow n rs q | p \<Rightarrow> p)
      else Pending)"

definition awaited :: "cache \<Rightarrow> nat \<Rightarrow> promise" where
  "awaited st i = follow (length (requests st)) (requests st) i"

text \<open>
  The states the module can be in: it starts with an empty cache; then calls of
  \<open>getTranslation\<close> and answers of the network to requests in flight come in any order.
\<close>

inductive reachable :: "translations_metadata \<Rightarrow> cache \<Rightarrow> bool" for md where
  start: "reachable md empty_cache"
| call: "reachable md st \<Longrightarrow>
    reachable md (snd (getTranslation md fragment language supervisor st))"
| answer: "reachable md st \<Longrightarrow> in_flight st i \<Longrightarrow> reachable md (on_fetched md i outcome st)"

text \<open>The fingerprints of the requests in flight, in the order the requests were issued.\<close>

definition fingerprints_in_flight :: "cache \<Rightarrow> string list" where
  "fingerprints_in_flight st =
     map req_fingerprint (filter (\<lambda>r. req_promise r = Pending) (requests st))"

text \<open>
  The invariant of the cache: the entry of the fingerprint of a request in flight is that
  request's promise.
\<close>

definition cache_inv :: "cache \<Rightarrow> bool" where
  "cache_inv st =
     (\<forall>i. in_flight st i \<longrightarrow> translations st (req_fingerprint (requests st ! i)) = Some i)"

text \<open>
  A table in which the fingerprints of two languages coincide, which takes a hash with a
  hyphen: \<open>en-GB\<close> with the hash \<open>abc\<close> and \<open>en\<close> with the hash \<open>GB-abc\<close> both give
  \<open>en-GB-abc.json\<close>.
\<close>

definition colliding_metadata :: translations_metadata where
  "colliding_metadata = [(''en'', \<lparr>hash = ''GB-abc''\<rparr>), (''en-GB'', \<lparr>hash = ''abc''\<rparr>)]"

definition not_found :: fetched where
  "not_found = Resolves \<lparr>ok = False, status = 404, json = Inl (Failure ''Unexpected token'')\<rparr>"

text \<open>
  Sample runs. \<open>de_pending\<close>: one call for \<open>de\<close> on the empty cache. \<open>two_pending\<close>: a
  call for \<open>en\<close> after it. \<open>de_failed\<close>: the request for \<open>de\<close> is answered with status
  404. \<open>en_loaded\<close>: then the request for \<open>en\<close> is answered with the bundle.
  \<open>en_GB_failed\<close>: on the table with colliding fingerprints, a call for \<open>en-GB\<close> whose
  request is answered with status 404.
\<close>

definition de_pending :: cache where
  "de_pending = snd (getTranslation example_metadata None ''de'' False empty_cache)"

definition two_pending :: cache where
  "two_pending = snd (getTranslation example_metadata None ''en'' False de_pending)"

definition de_failed :: cache where
  "de_failed = on_fetched example_metadata 0 not_found de_pending"

definition en_loaded :: cache where
  "en_loaded =
     on_fetched example_metadata 1 (Resolves \<lparr>ok = True, status = 200, json = Inr ''{}''\<rparr>)
       de_failed"

definition en_GB_failed :: cache where
  "en_GB_failed =
     on_fetched colliding_metadata 0 not_found
       (snd (getTranslation colliding_metadata None ''en-GB'' False empty_cache))"

section \<open>Properties of the resolver\<close>

lemmas resolver_defs =
  findAvailableLanguage_def in_translations_def has_language_def inherited_def
  Object_prototype_def toLowerCase_def lower_char_def LOCALE_LOOKUP_def

subsection \<open>findAvailableLanguage\<close>

lemma find_key: "find P (map fst md) = Some k \<Longrightarrow> P k \<and> has_language md k"
  by (auto simp: find_Some_iff has_language_def)

lemma LOCALE_LOOKUP_values:
  "map_of LOCALE_LOOKUP k = Some v \<Longrightarrow> v = ''zh-Hans'' \<or> v = ''zh-Hant''"
  by (auto simp: LOCALE_LOOKUP_def split: if_splits)

lemma Object_prototype_lower:
  "map toLowerCase Object_prototype =
     [''constructor'', ''__definegetter__'', ''__definesetter__'', ''hasownproperty'',
      ''__lookupgetter__'', ''__lookupsetter__'', ''isprototypeof'', ''propertyisenumerable'',
      ''tostring'', ''valueof'', ''__proto__'', ''tolocalestring'']"
  by (simp add: Object_prototype_def toLowerCase_def lower_char_def)

lemma inherited_not_alias:
  assumes "inherited name"
  shows "toLowerCase name \<notin> {''zh-cn'', ''zh-sg'', ''zh-my'', ''zh-tw'', ''zh-hk'', ''zh-mo'', ''zh''}"
proof -
  from assms have "toLowerCase name \<in> set (map toLowerCase Object_prototype)"
    by (simp add: inherited_def)
  then show ?thesis
    unfolding Object_prototype_lower by auto
qed

text \<open>On a string the function does not throw.\<close>

lemma findAvailableLanguage_Str:
  "\<exists>r. findAvailableLanguage md (Str s) = Inr r"
  by (simp add: findAvailableLanguage_def Let_def split: option.splits)

text \<open>The shapes of a result.\<close>

lemma findAvailableLanguage_result:
  assumes "findAvailableLanguage md language = Inr r"
  shows "r = Value Undefined
    \<or> (\<exists>code. r = Value (Str code)
          \<and> (has_language md code \<or> code = ''zh-Hans'' \<or> code = ''zh-Hant''))
    \<or> (r = Value language \<and> (\<exists>key. property_key language = Some key \<and> in_translations md key))
    \<or> (\<exists>name. r = Inherited name \<and> inherited name)"
proof (cases "property_key language")
  case None
  with assms show ?thesis by (simp add: findAvailableLanguage_def)
next
  case (Some key)
  show ?thesis
  proof (cases "in_translations md key")
    case True
    with Some assms show ?thesis by (auto simp: findAvailableLanguage_def)
  next
    case False
    with Some assms obtain s where s: "language = Str s"
      by (cases language) (simp_all add: findAvailableLanguage_def)
    with Some False have not_in: "\<not> in_translations md s" by simp
    from assms s not_in
    have r: "(case map_of LOCALE_LOOKUP (toLowerCase s) of
                Some mapped \<Rightarrow> Inr (Value (Str mapped))
              | None \<Rightarrow>
                  if inherited (toLowerCase s) then Inr (Inherited (toLowerCase s))
                  else
                    (case find (\<lambda>lang. toLowerCase lang = toLowerCase s) (map fst md) of
                       Some lang \<Rightarrow> Inr (Value (Str lang))
                     | None \<Rightarrow> Inr (Value Undefined))) = (Inr r :: error + found)"
      by (simp add: findAvailableLanguage_def Let_def)
    show ?thesis
    proof (cases "map_of LOCALE_LOOKUP (toLowerCase s)")
      case (Some mapped)
      with r have "r = Value (Str mapped)" by simp
      with Some show ?thesis by (auto dest: LOCALE_LOOKUP_values)
    next
      case None
      show ?thesis
      proof (cases "inherited (toLowerCase s)")
        case True
        with None r show ?thesis by auto
      next
        case no: False
        show ?thesis
        proof (cases "find (\<lambda>lang. toLowerCase lang = toLowerCase s) (map fst md)")
          case None
          with \<open>map_of LOCALE_LOOKUP (toLowerCase s) = None\<close> no r show ?thesis
            by simp
        next
          case (Some lang)
          with \<open>map_of LOCALE_LOOKUP (toLowerCase s) = None\<close> no r
          have "r = Value (Str lang)" by simp
          with Some show ?thesis by (auto dest: find_key)
        qed
      qed
    qed
  qed
qed

text \<open>
  Claim C6. For every language code that is a key of the supported-language table,
  \<open>findAvailableLanguage\<close> applied to that code returns that exact code.
\<close>

theorem supported_code_found:
  "has_language md code \<Longrightarrow> findAvailableLanguage md (Str code) = Inr (Value (Str code))"
  by (simp add: findAvailableLanguage_def in_translations_def)

theorem supported_code_found_witness:
  "has_language example_metadata ''pt-BR''
   \<and> findAvailableLanguage example_metadata (Str ''pt-BR'') = Inr (Value (Str ''pt-BR''))"
proof -
  have h: "has_language example_metadata ''pt-BR''"
    by (simp add: example_metadata_def has_language_def)
  show ?thesis
    using h supported_code_found [OF h] by simp
qed

text \<open>
  Claim C7. A code that is not itself a key of the table and that, in whatever casing,
  is one of the Chinese regional codes of the alias table resolves to the script variant
  the table gives it: \<open>zh-Hans\<close> for \<open>zh-cn\<close>, \<open>zh-sg\<close> and \<open>zh-my\<close>; \<open>zh-Hant\<close> for
  \<open>zh-tw\<close>, \<open>zh-hk\<close>, \<open>zh-mo\<close> and the bare \<open>zh\<close>. "In whatever casing" is: the
  lower-cased code is the table's key.
\<close>

theorem chinese_alias:
  "\<not> has_language md language \<Longrightarrow>
     (toLowerCase language \<in> {''zh-cn'', ''zh-sg'', ''zh-my''}
        \<longrightarrow> findAvailableLanguage md (Str language) = Inr (Value (Str ''zh-Hans'')))
   \<and> (toLowerCase language \<in> {''zh-tw'', ''zh-hk'', ''zh-mo'', ''zh''}
        \<longrightarrow> findAvailableLanguage md (Str language) = Inr (Value (Str ''zh-Hant'')))"
proof -
  assume no_key: "\<not> has_language md language"
  have own: "\<not> in_translations md language"
    if "toLowerCase language \<in> {''zh-cn'', ''zh-sg'', ''zh-my'', ''zh-tw'', ''zh-hk'', ''zh-mo'', ''zh''}"
    using that no_key inherited_not_alias [of language]
    by (auto simp: in_translations_def)
  show ?thesis
  proof (intro conjI impI)
    assume h: "toLowerCase language \<in> {''zh-cn'', ''zh-sg'', ''zh-my''}"
    then have "\<not> in_translations md language" by (intro own) auto
    with h show "findAvailableLanguage md (Str language) = Inr (Value (Str ''zh-Hans''))"
      by (auto simp: findAvailableLanguage_def LOCALE_LOOKUP_def)
  next
    assume h: "toLowerCase language \<in> {''zh-tw'', ''zh-hk'', ''zh-mo'', ''zh''}"
    then have "\<not> in_translations md language" by (intro own) auto
    with h show "findAvailableLanguage md (Str language) = Inr (Value (Str ''zh-Hant''))"
      by (auto simp: findAvailableLanguage_def LOCALE_LOOKUP_def)
  qed
qed

theorem chinese_alias_witness:
  "findAvailableLanguage example_metadata (Str ''ZH-cn'') = Inr (Value (Str ''zh-Hans''))
   \<and> findAvailableLanguage example_metadata (Str ''zh-HK'') = Inr (Value (Str ''zh-Hant''))
   \<and> findAvailableLanguage example_metadata (Str ''Zh'') = Inr (Value (Str ''zh-Hant''))"
proof -
  have a: "\<not> has_language example_metadata ''ZH-cn''"
    and b: "\<not> has_language example_metadata ''zh-HK''"
    and c: "\<not> has_language example_metadata ''Zh''"
    by (simp_all add: example_metadata_def has_language_def)
  have la: "toLowerCase ''ZH-cn'' = ''zh-cn''"
    and lb: "toLowerCase ''zh-HK'' = ''zh-hk''"
    and lc: "toLowerCase ''Zh'' = ''zh''"
    by (simp_all add: toLowerCase_def lower_char_def)
  show ?thesis
    using chinese_alias [OF a] chinese_alias [OF b] chinese_alias [OF c]
    by (simp add: la lb lc)
qed

subsection \<open>Signals that do not resolve\<close>

lemma toLowerCase_Nil_iff: "toLowerCase s = [] \<longleftrightarrow> s = []"
  by (simp add: toLowerCase_def)

lemma falsy_unresolved:
  assumes "\<not> is_truthy v"
  shows "resolves md v = None"
proof (cases "findAvailableLanguage md v")
  case (Inl e)
  then show ?thesis by (simp add: resolves_def)
next
  case (Inr r)
  from findAvailableLanguage_result [OF Inr]
  consider (undefined) "r = Value Undefined" | (code) code where "r = Value (Str code)"
    | (argument) "r = Value v" | (inherited) name where "r = Inherited name"
    by blast
  then have "\<not> truthy r"
  proof cases
    case undefined
    then show ?thesis by simp
  next
    case argument
    with assms show ?thesis by simp
  next
    case (code code)
    note r = this
    show ?thesis
    proof (cases v)
      case (Str s)
      with assms have "s = []" by simp
      with Str Inr r have "code = []"
        by (auto simp: findAvailableLanguage_def in_translations_def inherited_def
            Object_prototype_def LOCALE_LOOKUP_def toLowerCase_def
            split: if_splits option.splits dest!: find_key)
      with r show ?thesis by simp
    next
      case Undefined
      with Inr r show ?thesis
        by (simp add: findAvailableLanguage_def split: if_splits)
    next
      case (Other key t)
      with Inr r show ?thesis
        by (simp add: findAvailableLanguage_def split: if_splits option.splits)
    qed
  next
    case (inherited name)
    note r = this
    show ?thesis
    proof (cases v)
      case (Str s)
      with assms have "s = []" by simp
      with Str Inr r show ?thesis
        by (auto simp: findAvailableLanguage_def in_translations_def inherited_def
            Object_prototype_def LOCALE_LOOKUP_def toLowerCase_def
            split: if_splits option.splits)
    next
      case Undefined
      with Inr r show ?thesis
        by (simp add: findAvailableLanguage_def split: if_splits)
    next
      case (Other key t)
      with Inr r show ?thesis
        by (simp add: findAvailableLanguage_def split: if_splits option.splits)
    qed
  qed
  with Inr show ?thesis by (simp add: resolves_def)
qed

lemma resolves_truthy: "resolves md v = Some r \<Longrightarrow> truthy r"
  by (auto simp: resolves_def split: sum.splits if_splits)

subsection \<open>getLocalLanguage\<close>

lemma first_resolved_simps [simp]:
  "first_resolved md [] = None"
  "first_resolved md (v # vs) =
     (case resolves md v of Some r \<Rightarrow> Some r | None \<Rightarrow> first_resolved md vs)"
  by (simp_all add: first_resolved_def split: option.splits)

lemma first_resolved_append:
  "first_resolved md (xs @ ys) =
     (case first_resolved md xs of Some r \<Rightarrow> Some r | None \<Rightarrow> first_resolved md ys)"
  by (induction xs) (simp_all split: option.splits)

lemma first_resolved_truthy: "first_resolved md vs = Some r \<Longrightarrow> truthy r"
  by (induction vs) (auto split: option.splits dest: resolves_truthy)

lemma first_locale_resolved:
  "first_locale md locales = Inr (first_resolved md (map Str locales))"
proof (induction locales)
  case Nil
  show ?case by simp
next
  case (Cons l rest)
  obtain r where "findAvailableLanguage md (Str l) = Inr r"
    using findAvailableLanguage_Str by blast
  with Cons show ?case by (simp add: resolves_def)
qed

lemma stored_language_resolved:
  "stored_language parse md entry =
     first_resolved md
       (case entry of
          None \<Rightarrow> []
        | Some s \<Rightarrow>
            if s = [] then [] else (case parse s of None \<Rightarrow> [] | Some stored \<Rightarrow> [stored]))"
proof (cases "\<exists>s stored. entry = Some s \<and> s \<noteq> [] \<and> parse s = Some stored")
  case False
  then show ?thesis
    by (auto simp: stored_language_def split: option.splits)
next
  case True
  then obtain s stored where e: "entry = Some s" "s \<noteq> []" "parse s = Some stored"
    by blast
  show ?thesis
  proof (cases "is_truthy stored")
    case True
    with e show ?thesis
      by (simp add: stored_language_def resolves_def split: sum.splits)
  next
    case False
    with e falsy_unresolved [OF False, of md] show ?thesis
      by (simp add: stored_language_def)
  qed
qed

lemma earlier_resolved:
  "first_resolved md (earlier_signals parse b) =
     (case stored_language parse md (selectedLanguage b) of
        Some r \<Rightarrow> Some r
      | None \<Rightarrow>
          (case navigator_languages b of
             None \<Rightarrow> None
           | Some locales \<Rightarrow> first_resolved md (map Str locales)))"
  by (simp add: earlier_signals_def first_resolved_append stored_language_resolved
      split: option.splits)

lemma getLocalLanguage_earlier:
  "getLocalLanguage parse md b =
     (case first_resolved md (earlier_signals parse b) of
        Some language \<Rightarrow> Inr language
      | None \<Rightarrow>
     (case findAvailableLanguage md
             (case navigator_language b of None \<Rightarrow> Undefined | Some l \<Rightarrow> Str l) of
        Inl e \<Rightarrow> Inl e
      | Inr language \<Rightarrow>
          if truthy language then Inr language
          else
     (case navigator_language b of
        None \<Rightarrow> Inr (Value (Str ''en''))
      | Some l \<Rightarrow>
          if l \<noteq> [] \<and> includes_hyphen l
          then
            (case findAvailableLanguage md (Str (before_hyphen l)) of
               Inl e \<Rightarrow> Inl e
             | Inr language' \<Rightarrow>
                 if truthy language' then Inr language' else Inr (Value (Str ''en'')))
          else Inr (Value (Str ''en'')))))"
  unfolding getLocalLanguage_def earlier_resolved
  by (simp add: first_locale_resolved split: option.splits)

lemma getLocalLanguage_string:
  assumes "navigator_language b = Some l"
  shows "getLocalLanguage parse md b = Inr (getLocalLanguage_spec parse md b)"
proof -
  obtain r where r: "findAvailableLanguage md (Str l) = Inr r"
    using findAvailableLanguage_Str by blast
  obtain r' where r': "findAvailableLanguage md (Str (before_hyphen l)) = Inr r'"
    using findAvailableLanguage_Str by blast
  show ?thesis
  proof (cases "includes_hyphen l")
    case True
    then have "l \<noteq> []" by (auto simp: includes_hyphen_def)
    with True show ?thesis
      unfolding getLocalLanguage_earlier getLocalLanguage_spec_def signals_def
        first_resolved_append
      by (simp add: assms r r' resolves_def split: option.splits)
  next
    case False
    then show ?thesis
      unfolding getLocalLanguage_earlier getLocalLanguage_spec_def signals_def
        first_resolved_append
      by (simp add: assms r resolves_def split: option.splits)
  qed
qed








text \<open>
  Sample runs on the sample table: the base subtag of \<open>de-AT\<close>; no signal at all; a stored
  selection; a stored array \<open>["en"]\<close>, which converts to the key \<open>en\<close> and is returned
  as it is.
\<close>

lemma getLocalLanguage_examples:
  "getLocalLanguage parse_string_literal example_metadata
      \<lparr>selectedLanguage = None, navigator_languages = None, navigator_language = Some ''de-AT''\<rparr>
     = Inr (Value (Str ''de''))
   \<and> getLocalLanguage parse_string_literal example_metadata
      \<lparr>selectedLanguage = None, navigator_languages = Some [], navigator_language = Some ''fr''\<rparr>
     = Inr (Value (Str ''en''))
   \<and> getLocalLanguage parse_string_literal example_metadata
      \<lparr>selectedLanguage = Some [CHR 0x22, CHR ''d'', CHR ''e'', CHR 0x22],
       navigator_languages = Some [''pt-BR''], navigator_language = Some ''en''\<rparr>
     = Inr (Value (Str ''de''))
   \<and> getLocalLanguage (\<lambda>s. Some (Other (Some ''en'') True)) example_metadata
      \<lparr>selectedLanguage = Some [CHR ''['', CHR 0x22, CHR ''e'', CHR ''n'', CHR 0x22, CHR '']''],
       navigator_languages = None,
       navigator_language = Some ''de''\<rparr>
     = Inr (Value (Other (Some ''en'') True))"
  by (simp add: getLocalLanguage_def stored_language_def resolver_defs example_metadata_def
      parse_string_literal_def includes_hyphen_def before_hyphen_def)

text \<open>
  Claim C8. A stored \<open>selectedLanguage\<close> that is not valid JSON is ignored without an
  error: \<open>getLocalLanguage\<close> goes on to the signals of the browser and returns what it
  returns when the store has no entry.
\<close>

theorem malformed_selection_ignored:
  "parse s = None \<Longrightarrow>
     getLocalLanguage parse md (b\<lparr>selectedLanguage := Some s\<rparr>)
       = getLocalLanguage parse md (b\<lparr>selectedLanguage := None\<rparr>)"
  by (simp add: getLocalLanguage_def stored_language_def
      cong: option.case_cong sum.case_cong if_cong)

theorem malformed_selection_ignored_witness:
  "parse_string_literal ''{de'' = None
   \<and> getLocalLanguage parse_string_literal example_metadata
        \<lparr>selectedLanguage = Some ''{de'', navigator_languages = Some [''fr'', ''PT-br''],
         navigator_language = Some ''fr''\<rparr>
     = getLocalLanguage parse_string_literal example_metadata
        \<lparr>selectedLanguage = None, navigator_languages = Some [''fr'', ''PT-br''],
         navigator_language = Some ''fr''\<rparr>"
proof -
  have h: "parse_string_literal ''{de'' = None"
    by (simp add: parse_string_literal_def)
  show ?thesis
    using h malformed_selection_ignored [of parse_string_literal "''{de''" example_metadata
        "\<lparr>selectedLanguage = None, navigator_languages = Some [''fr'', ''PT-br''],
          navigator_language = Some ''fr''\<rparr>"]
    by simp
qed

subsection \<open>Results outside the table\<close>

text \<open>
  Claim C9, as amended. Every result of \<open>findAvailableLanguage\<close> other than none is a key
  of the table, or one of the alias values \<open>zh-Hans\<close> and \<open>zh-Hant\<close>, or the argument
  itself where the operator \<open>in\<close> finds its property key in the table, which it does for
  every name inherited from \<open>Object.prototype\<close>, or the value that the alias table
  inherits under the lower-cased argument. The alias branch does not look its value up in
  the table: on a table that has neither \<open>zh-cn\<close> nor \<open>zh-Hans\<close> the code \<open>zh-cn\<close>
  resolves to \<open>zh-Hans\<close>, which the table does not support. The fallback of
  \<open>getLocalLanguage\<close> is not looked up either: on a table without \<open>en\<close> a browser that
  gives no signal gets \<open>en\<close>.
\<close>

theorem result_in_table_or_alias:
  "(findAvailableLanguage md language = Inr r \<and> r \<noteq> Value Undefined
      \<longrightarrow> (\<exists>code. r = Value (Str code)
              \<and> (has_language md code \<or> code = ''zh-Hans'' \<or> code = ''zh-Hant''))
          \<or> (r = Value language
              \<and> (\<exists>key. property_key language = Some key \<and> in_translations md key))
          \<or> (\<exists>name. r = Inherited name \<and> inherited name))
   \<and> (\<not> has_language md ''zh-cn'' \<and> \<not> has_language md ''zh-Hans''
      \<longrightarrow> findAvailableLanguage md (Str ''zh-cn'') = Inr (Value (Str ''zh-Hans'')))
   \<and> (\<not> has_language md ''en''
      \<longrightarrow> getLocalLanguage parse md
            \<lparr>selectedLanguage = None, navigator_languages = None, navigator_language = Some []\<rparr>
          = Inr (Value (Str ''en'')))"
proof (intro conjI impI)
  assume "findAvailableLanguage md language = Inr r \<and> r \<noteq> Value Undefined"
  with findAvailableLanguage_result [of md language r]
  show "(\<exists>code. r = Value (Str code)
              \<and> (has_language md code \<or> code = ''zh-Hans'' \<or> code = ''zh-Hant''))
          \<or> (r = Value language
              \<and> (\<exists>key. property_key language = Some key \<and> in_translations md key))
          \<or> (\<exists>name. r = Inherited name \<and> inherited name)"
    by blast
next
  assume "\<not> has_language md ''zh-cn'' \<and> \<not> has_language md ''zh-Hans''"
  moreover have "\<not> inherited ''zh-cn''"
    by (simp add: inherited_def Object_prototype_def)
  ultimately show "findAvailableLanguage md (Str ''zh-cn'') = Inr (Value (Str ''zh-Hans''))"
    by (simp add: findAvailableLanguage_def in_translations_def toLowerCase_def lower_char_def
        LOCALE_LOOKUP_def)
next
  assume "\<not> has_language md ''en''"
  have "resolves md (Str []) = None"
    by (rule falsy_unresolved) simp
  then show "getLocalLanguage parse md
      \<lparr>selectedLanguage = None, navigator_languages = None, navigator_language = Some []\<rparr>
    = Inr (Value (Str ''en''))"
    by (simp add: getLocalLanguage_string getLocalLanguage_spec_def signals_def
        earlier_signals_def includes_hyphen_def)
qed

text \<open>
  Claim C9 as stated leaves a result no third way. But \<open>Constructor\<close> is answered with the
  function that the alias table inherits as \<open>constructor\<close>, and \<open>constructor\<close> with
  itself; neither is a key of the table or an alias value.
\<close>

theorem result_in_table_or_alias_counterexample:
  "findAvailableLanguage example_metadata (Str ''Constructor'') = Inr (Inherited ''constructor'')
   \<and> findAvailableLanguage example_metadata (Str ''constructor'')
      = Inr (Value (Str ''constructor''))
   \<and> \<not> has_language example_metadata ''constructor''"
  by (simp add: resolver_defs example_metadata_def)

theorem result_in_table_or_alias_witness:
  "findAvailableLanguage [(''de'', \<lparr>hash = ''d41d8c''\<rparr>)] (Str ''zh-cn'')
     = Inr (Value (Str ''zh-Hans''))
   \<and> \<not> has_language [(''de'', \<lparr>hash = ''d41d8c''\<rparr>)] ''zh-Hans''
   \<and> getLocalLanguage parse_string_literal [(''de'', \<lparr>hash = ''d41d8c''\<rparr>)]
        \<lparr>selectedLanguage = None, navigator_languages = None, navigator_language = Some []\<rparr>
     = Inr (Value (Str ''en''))
   \<and> \<not> has_language [(''de'', \<lparr>hash = ''d41d8c''\<rparr>)] ''en''"
proof -
  have a: "\<not> has_language [(''de'', \<lparr>hash = ''d41d8c''\<rparr>)] ''zh-cn''"
    and b: "\<not> has_language [(''de'', \<lparr>hash = ''d41d8c''\<rparr>)] ''zh-Hans''"
    and c: "\<not> has_language [(''de'', \<lparr>hash = ''d41d8c''\<rparr>)] ''en''"
    by (simp_all add: has_language_def)
  note t = result_in_table_or_alias [of "[(''de'', \<lparr>hash = ''d41d8c''\<rparr>)]" "Str ''zh-cn''"
      "Value (Str ''zh-Hans'')" parse_string_literal]
  from t a b have A: "findAvailableLanguage [(''de'', \<lparr>hash = ''d41d8c''\<rparr>)] (Str ''zh-cn'')
     = Inr (Value (Str ''zh-Hans''))"
    by blast
  from t c have B: "getLocalLanguage parse_string_literal [(''de'', \<lparr>hash = ''d41d8c''\<rparr>)]
        \<lparr>selectedLanguage = None, navigator_languages = None, navigator_language = Some []\<rparr>
     = Inr (Value (Str ''en''))"
    by blast
  from A b B c show ?thesis by blast
qed

section \<open>Properties of the fetcher\<close>

subsection \<open>The branches of getTranslation\<close>

declare getTranslation.simps [simp del]

lemma map_of_None_iff: "map_of md language = None \<longleftrightarrow> \<not> has_language md language"
  by (simp add: has_language_def map_of_eq_None_iff)

lemma en_not_inherited: "\<not> inherited ''en''"
  by (simp add: inherited_def Object_prototype_def)

lemma metadata_read_own: "map_of md language = Some m \<Longrightarrow> metadata_read md language = Some m"
  by (simp add: metadata_read_def)

lemma metadata_read_None_iff:
  "metadata_read md language = None \<longleftrightarrow> \<not> has_language md language \<and> \<not> inherited language"
proof (cases "map_of md language")
  case None
  then show ?thesis
    using map_of_None_iff [of md language] by (simp add: metadata_read_def)
next
  case (Some m)
  then show ?thesis
    using map_of_None_iff [of md language] by (simp add: metadata_read_def)
qed

lemma metadata_read_inherited:
  "\<not> has_language md language \<Longrightarrow> inherited language \<Longrightarrow>
     metadata_read md language = Some \<lparr>hash = ''undefined''\<rparr>"
  by (simp add: metadata_read_def flip: map_of_None_iff)

lemma metadata_read_en: "metadata_read md ''en'' = map_of md ''en''"
  by (simp add: metadata_read_def en_not_inherited split: option.splits)

lemma getTranslation_absent:
  "metadata_read md language = None \<Longrightarrow> language \<noteq> ''en'' \<Longrightarrow>
     getTranslation md fragment language supervisor st
       = getTranslation md fragment ''en'' supervisor st"
  by (subst getTranslation.simps) simp

lemma getTranslation_en_absent:
  "map_of md ''en'' = None \<Longrightarrow>
     getTranslation md fragment ''en'' supervisor st
       = (Thrown (Error ''Language en is not found in metadata''), st)"
  by (subst getTranslation.simps) (simp add: metadata_read_en)

lemma getTranslation_cached_read:
  "metadata_read md language = Some m \<Longrightarrow>
   translations st (fingerprint fragment language m) = Some p \<Longrightarrow>
     getTranslation md fragment language supervisor st = (Cached p, st)"
  by (subst getTranslation.simps) simp

lemma getTranslation_fetch_read:
  "metadata_read md language = Some m \<Longrightarrow>
   translations st (fingerprint fragment language m) = None \<Longrightarrow>
     getTranslation md fragment language supervisor st
       = (Cached (length (requests st)),
          st\<lparr>translations :=
               (translations st)(fingerprint fragment language m \<mapsto> length (requests st)),
             requests := requests st @
               [\<lparr>req_path = fetch_path (fingerprint fragment language m) supervisor,
                 req_fingerprint = fingerprint fragment language m,
                 req_fragment = fragment, req_language = language,
                 req_supervisor = supervisor, req_promise = Pending\<rparr>]\<rparr>)"
  by (subst getTranslation.simps) (simp add: Let_def)

lemmas getTranslation_cached = getTranslation_cached_read [OF metadata_read_own]

lemmas getTranslation_fetch = getTranslation_fetch_read [OF metadata_read_own]

text \<open>The three ways a call can end.\<close>

lemma getTranslation_cases:
  obtains
    (thrown) e where "getTranslation md fragment language supervisor st = (Thrown e, st)"
  | (cached) p fp where "translations st fp = Some p"
      and "getTranslation md fragment language supervisor st = (Cached p, st)"
  | (fetch) new where "translations st (req_fingerprint new) = None"
      and "req_promise new = Pending"
      and "req_path new = fetch_path (req_fingerprint new) supervisor"
      and "getTranslation md fragment language supervisor st
            = (Cached (length (requests st)),
               st\<lparr>translations := (translations st)(req_fingerprint new \<mapsto> length (requests st)),
                  requests := requests st @ [new]\<rparr>)"
proof -
  have known: thesis if m: "metadata_read md l = Some m"
    and eq: "getTranslation md fragment language supervisor st
      = getTranslation md fragment l supervisor st"
    for l m
  proof (cases "translations st (fingerprint fragment l m)")
    case None
    show ?thesis
      by (rule fetch [of "\<lparr>req_path = fetch_path (fingerprint fragment l m) supervisor,
                 req_fingerprint = fingerprint fragment l m,
                 req_fragment = fragment, req_language = l,
                 req_supervisor = supervisor, req_promise = Pending\<rparr>"])
        (simp_all add: eq getTranslation_fetch_read [OF m None] None)
  next
    case (Some p)
    show ?thesis
      by (rule cached [OF Some]) (simp add: eq getTranslation_cached_read [OF m Some])
  qed
  show thesis
  proof (cases "metadata_read md language")
    case (Some m)
    then show ?thesis by (rule known) simp
  next
    case None
    show ?thesis
    proof (cases "language = ''en''")
      case True
      with None show ?thesis
        by (intro thrown) (simp add: getTranslation_en_absent metadata_read_en)
    next
      case False
      note eq = getTranslation_absent [OF None False]
      show ?thesis
      proof (cases "metadata_read md ''en''")
        case None
        then show ?thesis
          by (intro thrown) (simp add: eq getTranslation_en_absent metadata_read_en)
      next
        case (Some m)
        then show ?thesis by (rule known) (rule eq)
      qed
    qed
  qed
qed

text \<open>
  Claim C1, as amended. For every fragment and supervisor flag: when the requested
  language is not \<open>en\<close> and the table has no property of that name, neither a key nor a
  name inherited from \<open>Object.prototype\<close>, \<open>getTranslation\<close> returns what
  \<open>getTranslation\<close> returns for the same fragment and flag with the language \<open>en\<close>; when
  the language is \<open>en\<close> and \<open>en\<close> is not in the table, it fails with the error
  \<open>Language en is not found in metadata\<close>. For an inherited name that is not a key there
  is no fallback at this point: the value read is truthy and has no hash, and the bundle
  with the fingerprint of that name and the text \<open>undefined\<close> is requested.
\<close>

theorem absent_language_falls_back:
  "(\<not> has_language md language \<and> \<not> inherited language \<and> language \<noteq> ''en''
      \<longrightarrow> getTranslation md fragment language supervisor st
            = getTranslation md fragment ''en'' supervisor st)
   \<and> (\<not> has_language md ''en''
      \<longrightarrow> getTranslation md fragment ''en'' supervisor st
            = (Thrown (Error ''Language en is not found in metadata''), st))
   \<and> (\<not> has_language md language \<and> inherited language
        \<and> translations st (fragment_part fragment @ language @ ''-undefined.json'') = None
      \<longrightarrow> map req_path (requests (snd (getTranslation md fragment language supervisor st)))
            = map req_path (requests st)
                @ [fetch_path (fragment_part fragment @ language @ ''-undefined.json'') supervisor])"
proof (intro conjI impI)
  assume "\<not> has_language md language \<and> \<not> inherited language \<and> language \<noteq> ''en''"
  then show "getTranslation md fragment language supervisor st
      = getTranslation md fragment ''en'' supervisor st"
    by (simp add: getTranslation_absent metadata_read_None_iff)
next
  assume "\<not> has_language md ''en''"
  then show "getTranslation md fragment ''en'' supervisor st
      = (Thrown (Error ''Language en is not found in metadata''), st)"
    by (simp add: getTranslation_en_absent map_of_None_iff)
next
  assume h: "\<not> has_language md language \<and> inherited language
    \<and> translations st (fragment_part fragment @ language @ ''-undefined.json'') = None"
  have fp: "fingerprint fragment language \<lparr>hash = ''undefined''\<rparr>
      = fragment_part fragment @ language @ ''-undefined.json''"
    by (simp add: fingerprint_def)
  from h have m: "metadata_read md language = Some \<lparr>hash = ''undefined''\<rparr>"
    by (simp add: metadata_read_inherited)
  from h have "translations st (fingerprint fragment language \<lparr>hash = ''undefined''\<rparr>) = None"
    by (simp only: fp)
  from getTranslation_fetch_read [OF m this, of supervisor]
  show "map req_path (requests (snd (getTranslation md fragment language supervisor st)))
      = map req_path (requests st)
          @ [fetch_path (fragment_part fragment @ language @ ''-undefined.json'') supervisor]"
    by (simp add: fp)
qed

text \<open>
  Claim C1 as stated has every language that is absent from the table fall back to \<open>en\<close>.
  \<open>constructor\<close> is not a key of the sample table, yet the call requests
  \<open>constructor-undefined.json\<close>, where the call for \<open>en\<close> requests \<open>en-abc.json\<close>.
\<close>

theorem absent_language_falls_back_counterexample:
  "\<not> has_language example_metadata ''constructor''
   \<and> map req_path (requests (snd (getTranslation example_metadata None ''constructor'' False
        empty_cache)))
      = [''/static/translations/constructor-undefined.json'']
   \<and> map req_path (requests (snd (getTranslation example_metadata None ''en'' False empty_cache)))
      = [''/static/translations/en-abc.json'']
   \<and> getTranslation example_metadata None ''constructor'' False empty_cache
      \<noteq> getTranslation example_metadata None ''en'' False empty_cache"
proof -
  have a: "\<not> has_language example_metadata ''constructor''"
    by (simp add: example_metadata_def has_language_def)
  have b: "map req_path (requests (snd (getTranslation example_metadata None ''constructor'' False
        empty_cache)))
      = [''/static/translations/constructor-undefined.json'']"
    by (simp add: getTranslation.simps metadata_read_def inherited_def Object_prototype_def
        example_metadata_def fingerprint_def fragment_part_def fetch_path_def empty_cache_def
        Let_def)
  have c: "map req_path (requests (snd (getTranslation example_metadata None ''en'' False
        empty_cache)))
      = [''/static/translations/en-abc.json'']"
    by (simp add: getTranslation.simps metadata_read_def
        example_metadata_def fingerprint_def fragment_part_def fetch_path_def empty_cache_def
        Let_def)
  from b c have "getTranslation example_metadata None ''constructor'' False empty_cache
      \<noteq> getTranslation example_metadata None ''en'' False empty_cache"
    by auto
  with a b c show ?thesis by blast
qed

theorem absent_language_falls_back_witness:
  "getTranslation example_metadata (Some ''logbook'') ''fr'' False empty_cache
     = getTranslation example_metadata (Some ''logbook'') ''en'' False empty_cache
   \<and> getTranslation [(''de'', \<lparr>hash = ''d41d8c''\<rparr>)] None ''en'' True empty_cache
     = (Thrown (Error ''Language en is not found in metadata''), empty_cache)
   \<and> map req_path (requests (snd (getTranslation example_metadata (Some ''logbook'')
        ''toString'' False empty_cache)))
     = [''/static/translations/logbook/toString-undefined.json'']"
proof -
  have a: "\<not> has_language example_metadata ''fr''"
    and b: "\<not> has_language [(''de'', \<lparr>hash = ''d41d8c''\<rparr>)] ''en''"
    and t: "\<not> has_language example_metadata ''toString''"
    by (simp_all add: example_metadata_def has_language_def)
  have c: "''fr'' \<noteq> ''en''" by simp
  have d: "\<not> inherited ''fr''" and i: "inherited ''toString''"
    by (simp_all add: inherited_def Object_prototype_def)
  from a c d absent_language_falls_back [of example_metadata "''fr''" "Some ''logbook''" False
      empty_cache]
  have A: "getTranslation example_metadata (Some ''logbook'') ''fr'' False empty_cache
     = getTranslation example_metadata (Some ''logbook'') ''en'' False empty_cache"
    by blast
  from b absent_language_falls_back [of "[(''de'', \<lparr>hash = ''d41d8c''\<rparr>)]" "''en''" None True
      empty_cache]
  have B: "getTranslation [(''de'', \<lparr>hash = ''d41d8c''\<rparr>)] None ''en'' True empty_cache
     = (Thrown (Error ''Language en is not found in metadata''), empty_cache)"
    by blast
  have e: "translations empty_cache (fragment_part (Some ''logbook'') @ ''toString''
      @ ''-undefined.json'') = None"
    by (simp add: empty_cache_def)
  from t i e absent_language_falls_back [of example_metadata "''toString''" "Some ''logbook''"
      False empty_cache]
  have "map req_path (requests (snd (getTranslation example_metadata (Some ''logbook'')
        ''toString'' False empty_cache)))
     = map req_path (requests empty_cache)
         @ [fetch_path (fragment_part (Some ''logbook'') @ ''toString'' @ ''-undefined.json'')
              False]"
    by blast
  then have C: "map req_path (requests (snd (getTranslation example_metadata (Some ''logbook'')
        ''toString'' False empty_cache)))
     = [''/static/translations/logbook/toString-undefined.json'']"
    by (simp add: empty_cache_def fragment_part_def fetch_path_def)
  from A B C show ?thesis by blast
qed

subsection \<open>Fingerprints and paths\<close>

lemma String_replace_absent:
  "\<not> sublist pattern s \<Longrightarrow> String_replace s pattern replacement = s"
proof (induction s)
  case Nil
  then show ?case by auto
next
  case (Cons c cs)
  then show ?case
    by (auto simp: sublist_Cons_right)
qed

lemma String_replace_first:
  "pattern \<noteq> [] \<Longrightarrow> \<not> sublist pattern (u @ butlast pattern) \<Longrightarrow>
     String_replace (u @ pattern @ v) pattern replacement = u @ replacement @ v"
proof (induction u)
  case Nil
  then obtain c cs where "pattern @ v = c # cs"
    by (cases pattern) auto
  moreover have "prefix pattern (pattern @ v)" by simp
  ultimately show ?case
    by (metis String_replace.simps(2) append_Nil append_eq_conv_conj)
next
  case (Cons a u)
  have "\<not> prefix pattern ((a # u) @ pattern @ v)"
  proof
    assume p: "prefix pattern ((a # u) @ pattern @ v)"
    have whole: "(a # u) @ pattern @ v = ((a # u) @ butlast pattern) @ (last pattern # v)"
      using Cons.prems(1) by simp
    have "prefix ((a # u) @ butlast pattern) ((a # u) @ pattern @ v)"
      by (subst whole) (rule prefixI, rule refl)
    moreover have "length pattern \<le> length ((a # u) @ butlast pattern)"
      using Cons.prems(1) by (cases pattern) auto
    ultimately have "prefix pattern ((a # u) @ butlast pattern)"
      using p prefix_length_prefix by blast
    then show False
      using Cons.prems(2) by (auto dest: prefix_imp_sublist)
  qed
  moreover have "\<not> sublist pattern (u @ butlast pattern)"
    using Cons.prems(2) by (simp add: sublist_Cons_right)
  ultimately show ?case
    using Cons.IH Cons.prems(1) by simp
qed

text \<open>
  Claim C4, as amended. For every fragment and every language of the table the
  fingerprint is the fragment followed by \<open>/\<close> (nothing when the fragment is null or
  empty), then the language, \<open>-\<close>, the language's hash and \<open>.json\<close>. It is the key of
  the cache, and the path of the request is \<open>/static/translations/\<close> followed by the
  fingerprint in normal mode. In supervisor mode the path is
  \<open>/api/hassio/app/static/translations/\<close> followed by the fingerprint without its first
  occurrence of \<open>supervisor/\<close>, wherever in the fingerprint that occurrence stands, and
  followed by the whole fingerprint when there is no occurrence.
\<close>

theorem translation_paths:
  "(fragment = None \<or> fragment = Some []
      \<longrightarrow> fingerprint fragment language m = language @ ''-'' @ hash m @ ''.json'')
   \<and> (f \<noteq> []
      \<longrightarrow> fingerprint (Some f) language m = f @ ''/'' @ language @ ''-'' @ hash m @ ''.json'')
   \<and> fetch_path fp False = ''/static/translations/'' @ fp
   \<and> (fp = u @ ''supervisor/'' @ v \<and> \<not> sublist ''supervisor/'' (u @ ''supervisor'')
      \<longrightarrow> fetch_path fp True = ''/api/hassio/app/static/translations/'' @ u @ v)
   \<and> (\<not> sublist ''supervisor/'' fp
      \<longrightarrow> fetch_path fp True = ''/api/hassio/app/static/translations/'' @ fp)
   \<and> (map_of md language = Some m \<and> translations st (fingerprint fragment language m) = None
      \<longrightarrow> map req_path (requests (snd (getTranslation md fragment language supervisor st)))
            = map req_path (requests st) @ [fetch_path (fingerprint fragment language m) supervisor]
          \<and> translations (snd (getTranslation md fragment language supervisor st))
              (fingerprint fragment language m) = Some (length (requests st)))"
proof -
  have "String_replace (u @ ''supervisor/'' @ v) ''supervisor/'' [] = u @ [] @ v"
    if "\<not> sublist ''supervisor/'' (u @ ''supervisor'')"
    using that by (intro String_replace_first) simp_all
  then show ?thesis
    by (auto simp: fingerprint_def fragment_part_def fetch_path_def String_replace_absent
        getTranslation_fetch)
qed

text \<open>
  Claim C4 as stated has the prefix \<open>supervisor/\<close> stripped from the fragment. For the
  fragment \<open>my-supervisor\<close> there is no such prefix, and the path would keep the fragment;
  the code removes the occurrence inside the fragment part.
\<close>

theorem translation_paths_counterexample:
  "fetch_path (fingerprint (Some ''my-supervisor'') ''en'' \<lparr>hash = ''abc''\<rparr>) True
     = ''/api/hassio/app/static/translations/my-en-abc.json''
   \<and> supervisor_path_spec (Some ''my-supervisor'') ''en'' \<lparr>hash = ''abc''\<rparr>
     = ''/api/hassio/app/static/translations/my-supervisor/en-abc.json''
   \<and> fetch_path (fingerprint (Some ''my-supervisor'') ''en'' \<lparr>hash = ''abc''\<rparr>) True
     \<noteq> supervisor_path_spec (Some ''my-supervisor'') ''en'' \<lparr>hash = ''abc''\<rparr>"
  by (simp add: fetch_path_def fingerprint_def fragment_part_def supervisor_path_spec_def
      strip_prefix_def)


theorem translation_paths_witness:
  "fingerprint None ''en'' \<lparr>hash = ''abc''\<rparr> = ''en-abc.json''
   \<and> fingerprint (Some ''logbook'') ''en'' \<lparr>hash = ''abc''\<rparr> = ''logbook/en-abc.json''
   \<and> fetch_path ''logbook/en-abc.json'' False = ''/static/translations/logbook/en-abc.json''
   \<and> fetch_path ''supervisor/en-abc.json'' True
       = ''/api/hassio/app/static/translations/en-abc.json''
   \<and> fetch_path ''logbook/en-abc.json'' True
       = ''/api/hassio/app/static/translations/logbook/en-abc.json''
   \<and> map req_path
         (requests (snd (getTranslation example_metadata (Some ''logbook'') ''en'' False empty_cache)))
       = [''/static/translations/logbook/en-abc.json'']"
proof -
  have m: "map_of example_metadata ''en'' = Some \<lparr>hash = ''abc''\<rparr>"
    by (simp add: example_metadata_def)
  have e: "translations empty_cache ''logbook/en-abc.json'' = None" "requests empty_cache = []"
    by (simp_all add: empty_cache_def)
  have a: "\<not> sublist ''supervisor/'' ''supervisor''"
    and b: "\<not> sublist ''supervisor/'' ''logbook/en-abc.json''"
    by (simp_all add: sublist_Cons_right)
  show ?thesis
    using translation_paths [of None "''en''" "\<lparr>hash = ''abc''\<rparr>" "''logbook''"
        "''supervisor/en-abc.json''" "[]" "''en-abc.json''" example_metadata empty_cache False]
      translation_paths [of "Some ''logbook''" "''en''" "\<lparr>hash = ''abc''\<rparr>" "''logbook''"
        "''logbook/en-abc.json''" "[]" "''en-abc.json''" example_metadata empty_cache False]
      m e a b
    by simp
qed

subsection \<open>The supervisor flag\<close>

lemma getTranslation_again_known:
  assumes m: "metadata_read md language = Some m"
  shows "getTranslation md fragment language supervisor'
           (snd (getTranslation md fragment language supervisor st))
         = getTranslation md fragment language supervisor st"
proof (cases "translations st (fingerprint fragment language m)")
  case None
  show ?thesis
    by (simp add: getTranslation_fetch_read [OF m None] getTranslation_cached_read [OF m])
next
  case (Some p)
  show ?thesis
    by (simp add: getTranslation_cached_read [OF m Some])
qed

lemma getTranslation_again:
  "getTranslation md fragment language supervisor'
     (snd (getTranslation md fragment language supervisor st))
   = getTranslation md fragment language supervisor st"
proof (cases "metadata_read md language")
  case (Some m)
  then show ?thesis by (rule getTranslation_again_known)
next
  case None
  show ?thesis
  proof (cases "language = ''en''")
    case True
    with None show ?thesis by (simp add: getTranslation_en_absent metadata_read_en)
  next
    case False
    show ?thesis
    proof (cases "metadata_read md ''en''")
      case en: None
      then show ?thesis
        by (simp add: getTranslation_absent [OF None False] getTranslation_en_absent
            metadata_read_en)
    next
      case (Some m)
      then show ?thesis
        by (simp add: getTranslation_absent [OF None False] getTranslation_again_known)
    qed
  qed
qed

text \<open>
  Claim C10. The key of the cache is made of the fragment, the language and its hash, and
  the supervisor flag is no part of it. So a call finds the entry that a call with the
  same fragment and language has left, whatever the flags of the two calls: it returns
  that entry and issues no request, and the only request there is carries the path of the
  first caller's mode.
\<close>

theorem cache_ignores_supervisor:
  "(map_of md language = Some m \<and> translations st (fingerprint fragment language m) = Some p
      \<longrightarrow> getTranslation md fragment language supervisor' st = (Cached p, st))
   \<and> getTranslation md fragment language supervisor'
        (snd (getTranslation md fragment language supervisor st))
      = getTranslation md fragment language supervisor st
   \<and> (map_of md language = Some m \<and> translations st (fingerprint fragment language m) = None
      \<longrightarrow> map req_path (requests (snd (getTranslation md fragment language supervisor'
              (snd (getTranslation md fragment language supervisor st)))))
          = map req_path (requests st) @ [fetch_path (fingerprint fragment language m) supervisor])"
  by (simp add: getTranslation_again getTranslation_cached getTranslation_fetch)

theorem cache_ignores_supervisor_witness:
  "getTranslation example_metadata (Some ''supervisor'') ''de'' True
      (snd (getTranslation example_metadata (Some ''supervisor'') ''de'' False empty_cache))
    = (Cached 0, snd (getTranslation example_metadata (Some ''supervisor'') ''de'' False empty_cache))
   \<and> map req_path (requests (snd (getTranslation example_metadata (Some ''supervisor'') ''de'' True
        (snd (getTranslation example_metadata (Some ''supervisor'') ''de'' False empty_cache)))))
    = [''/static/translations/supervisor/de-d41d8c.json'']"
proof -
  have m: "map_of example_metadata ''de'' = Some \<lparr>hash = ''d41d8c''\<rparr>"
    by (simp add: example_metadata_def)
  have e: "translations empty_cache (fingerprint (Some ''supervisor'') ''de'' \<lparr>hash = ''d41d8c''\<rparr>) = None"
    "requests empty_cache = []"
    by (simp_all add: empty_cache_def)
  have f: "fetch_path (fingerprint (Some ''supervisor'') ''de'' \<lparr>hash = ''d41d8c''\<rparr>) False
      = ''/static/translations/supervisor/de-d41d8c.json''"
    by (simp add: fetch_path_def fingerprint_def fragment_part_def)
  have first: "fst (getTranslation example_metadata (Some ''supervisor'') ''de'' False empty_cache)
      = Cached 0"
    by (simp add: getTranslation_fetch [OF m e(1)] e(2))
  note c = cache_ignores_supervisor [of example_metadata "''de''" "\<lparr>hash = ''d41d8c''\<rparr>"
      empty_cache "Some ''supervisor''" 0 True False]
  from c have "getTranslation example_metadata (Some ''supervisor'') ''de'' True
      (snd (getTranslation example_metadata (Some ''supervisor'') ''de'' False empty_cache))
    = getTranslation example_metadata (Some ''supervisor'') ''de'' False empty_cache"
    by simp
  with first have A: "getTranslation example_metadata (Some ''supervisor'') ''de'' True
      (snd (getTranslation example_metadata (Some ''supervisor'') ''de'' False empty_cache))
    = (Cached 0, snd (getTranslation example_metadata (Some ''supervisor'') ''de'' False empty_cache))"
    by (simp add: prod_eq_iff)
  from m e(1) c [THEN conjunct2, THEN conjunct2]
  have "map req_path (requests (snd (getTranslation example_metadata
        (Some ''supervisor'') ''de'' True
        (snd (getTranslation example_metadata (Some ''supervisor'') ''de'' False empty_cache)))))
    = map req_path (requests empty_cache)
        @ [fetch_path (fingerprint (Some ''supervisor'') ''de'' \<lparr>hash = ''d41d8c''\<rparr>) False]"
    by blast
  then have B: "map req_path (requests (snd (getTranslation example_metadata
        (Some ''supervisor'') ''de'' True
        (snd (getTranslation example_metadata (Some ''supervisor'') ''de'' False empty_cache)))))
    = [''/static/translations/supervisor/de-d41d8c.json'']"
    by (simp only: e(2) f list.map append_Nil)
  from A B show ?thesis by (rule conjI)
qed

subsection \<open>The branches of the handlers\<close>

lemma settle_simps [simp]:
  "translations (settle i p st) = translations st"
  "length (requests (settle i p st)) = length (requests st)"
  "j \<noteq> i \<Longrightarrow> requests (settle i p st) ! j = requests st ! j"
  "i < length (requests st) \<Longrightarrow> req_promise (requests (settle i p st) ! i) = p"
  by (simp_all add: settle_def)

lemma settle_fingerprint [simp]:
  "j < length (requests st) \<Longrightarrow>
     req_fingerprint (requests (settle i p st) ! j) = req_fingerprint (requests st ! j)"
  by (cases "j = i") (simp_all add: settle_def)

lemma on_fetched_success:
  "in_flight st i \<Longrightarrow> fetchTranslation (req_fingerprint (requests st ! i)) outcome = Inr data \<Longrightarrow>
     on_fetched md i outcome st = settle i (Fulfilled (req_language (requests st ! i)) data) st"
  by (simp add: on_fetched_def)

lemma on_fetched_en_failure:
  "in_flight st i \<Longrightarrow> fetchTranslation (req_fingerprint (requests st ! i)) outcome = Inl e \<Longrightarrow>
   req_language (requests st ! i) = ''en'' \<Longrightarrow>
     on_fetched md i outcome st
       = settle i (Rejected e)
           (st\<lparr>translations := (translations st)(req_fingerprint (requests st ! i) := None)\<rparr>)"
  by (simp add: on_fetched_def)

lemma on_fetched_fallback:
  "in_flight st i \<Longrightarrow> fetchTranslation (req_fingerprint (requests st ! i)) outcome = Inl e \<Longrightarrow>
   req_language (requests st ! i) \<noteq> ''en'' \<Longrightarrow>
     on_fetched md i outcome st
       = settle i
           (resolved_with (fst (getTranslation md (req_fragment (requests st ! i)) ''en''
              (req_supervisor (requests st ! i))
              (st\<lparr>translations := (translations st)(req_fingerprint (requests st ! i) := None)\<rparr>))))
           (snd (getTranslation md (req_fragment (requests st ! i)) ''en''
              (req_supervisor (requests st ! i))
              (st\<lparr>translations := (translations st)(req_fingerprint (requests st ! i) := None)\<rparr>)))"
  by (simp add: on_fetched_def Let_def split_beta)

subsection \<open>The invariant\<close>

lemma in_flight_settle:
  "in_flight (settle i p st) j \<longleftrightarrow>
     (if j = i then i < length (requests st) \<and> p = Pending else in_flight st j)"
  by (auto simp: in_flight_def)

text \<open>
  A call keeps the entries of the requests in flight. The requests in \<open>X\<close> are left out:
  inside the \<open>catch\<close> handler the failed request has lost its entry and is not settled yet.
\<close>

lemma getTranslation_keeps_entries:
  assumes inv: "\<forall>j. j \<notin> X \<longrightarrow> in_flight st j
      \<longrightarrow> translations st (req_fingerprint (requests st ! j)) = Some j"
    and X: "\<forall>x\<in>X. x < length (requests st)"
    and st': "st' = snd (getTranslation md fragment language supervisor st)"
  shows "\<forall>j. j \<notin> X \<longrightarrow> in_flight st' j
      \<longrightarrow> translations st' (req_fingerprint (requests st' ! j)) = Some j"
proof (cases rule: getTranslation_cases [of md fragment language supervisor st])
  case (thrown e)
  with inv st' show ?thesis by simp
next
  case (cached p fp)
  with inv st' show ?thesis by simp
next
  case (fetch new)
  show ?thesis
  proof (intro allI impI)
    fix j
    assume j: "j \<notin> X" and fl: "in_flight st' j"
    show "translations st' (req_fingerprint (requests st' ! j)) = Some j"
    proof (cases "j < length (requests st)")
      case True
      with fl fetch st' have "in_flight st j"
        by (simp add: in_flight_def nth_append)
      with inv j have "translations st (req_fingerprint (requests st ! j)) = Some j"
        by blast
      with fetch True st' show ?thesis
        by (auto simp: nth_append)
    next
      case False
      with fl fetch st' have "j = length (requests st)"
        by (simp add: in_flight_def)
      with fetch st' show ?thesis by simp
    qed
  qed
qed


lemma getTranslation_old_requests:
  "j < length (requests st) \<Longrightarrow>
     requests (snd (getTranslation md fragment language supervisor st)) ! j = requests st ! j"
  by (cases rule: getTranslation_cases [of md fragment language supervisor st])
    (simp_all add: nth_append)

lemma cache_inv_call:
  assumes "cache_inv st"
  shows "cache_inv (snd (getTranslation md fragment language supervisor st))"
  using getTranslation_keeps_entries [of "{}" st _ md fragment language supervisor] assms
  by (simp add: cache_inv_def)

lemma cache_inv_removed:
  assumes inv: "cache_inv st" and i: "in_flight st i"
    and st1: "st1 = st\<lparr>translations := (translations st)(req_fingerprint (requests st ! i) := None)\<rparr>"
  shows "\<forall>j. j \<notin> {i} \<longrightarrow> in_flight st1 j
      \<longrightarrow> translations st1 (req_fingerprint (requests st1 ! j)) = Some j"
proof (intro allI impI)
  fix j
  assume j: "j \<notin> {i}" and fl: "in_flight st1 j"
  from fl st1 have "in_flight st j" by (simp add: in_flight_def)
  with inv have tj: "translations st (req_fingerprint (requests st ! j)) = Some j"
    by (simp add: cache_inv_def)
  from inv i have "translations st (req_fingerprint (requests st ! i)) = Some i"
    by (simp add: cache_inv_def)
  with tj j have "req_fingerprint (requests st ! j) \<noteq> req_fingerprint (requests st ! i)"
    by auto
  with tj st1 show "translations st1 (req_fingerprint (requests st1 ! j)) = Some j"
    by simp
qed

lemma cache_inv_settle:
  assumes inv: "\<forall>j. j \<notin> {i} \<longrightarrow> in_flight st j
      \<longrightarrow> translations st (req_fingerprint (requests st ! j)) = Some j"
    and p: "p \<noteq> Pending"
  shows "cache_inv (settle i p st)"
  unfolding cache_inv_def
proof (intro allI impI)
  fix j
  assume fl: "in_flight (settle i p st) j"
  with p have ji: "j \<noteq> i" and "in_flight st j"
    by (auto simp: in_flight_settle split: if_splits)
  with inv have "translations st (req_fingerprint (requests st ! j)) = Some j"
    by simp
  with ji show "translations (settle i p st) (req_fingerprint (requests (settle i p st) ! j)) = Some j"
    by simp
qed

lemma resolved_with_not_Pending: "resolved_with r \<noteq> Pending"
  by (cases r) (simp_all add: resolved_with_def)

lemma cache_inv_answer:
  assumes inv: "cache_inv st" and i: "in_flight st i"
  shows "cache_inv (on_fetched md i outcome st)"
proof (cases "fetchTranslation (req_fingerprint (requests st ! i)) outcome")
  case (Inr data)
  have "cache_inv (settle i (Fulfilled (req_language (requests st ! i)) data) st)"
    using inv by (intro cache_inv_settle) (simp_all add: cache_inv_def)
  with i Inr show ?thesis
    by (simp add: on_fetched_success)
next
  case (Inl e)
  define st1 where
    "st1 = st\<lparr>translations := (translations st)(req_fingerprint (requests st ! i) := None)\<rparr>"
  note removed = cache_inv_removed [OF inv i st1_def]
  show ?thesis
  proof (cases "req_language (requests st ! i) = ''en''")
    case True
    have "cache_inv (settle i (Rejected e) st1)"
      using removed by (intro cache_inv_settle) simp_all
    with i Inl True show ?thesis
      by (simp add: on_fetched_en_failure st1_def)
  next
    case False
    define fallback where "fallback =
      getTranslation md (req_fragment (requests st ! i)) ''en'' (req_supervisor (requests st ! i)) st1"
    have "i < length (requests st1)"
      using i by (simp add: st1_def in_flight_def)
    then have "\<forall>x\<in>{i}. x < length (requests st1)" by simp
    with removed have "\<forall>j. j \<notin> {i} \<longrightarrow> in_flight (snd fallback) j
        \<longrightarrow> translations (snd fallback) (req_fingerprint (requests (snd fallback) ! j)) = Some j"
      unfolding fallback_def by (rule getTranslation_keeps_entries) (rule refl)
    then have "cache_inv (settle i (resolved_with (fst fallback)) (snd fallback))"
      by (intro cache_inv_settle) (simp_all add: resolved_with_not_Pending)
    then show ?thesis
      unfolding on_fetched_fallback [OF i Inl False] fallback_def st1_def .
  qed
qed

lemma reachable_cache_inv: "reachable md st \<Longrightarrow> cache_inv st"
proof (induction rule: reachable.induct)
  case start
  show ?case by (simp add: cache_inv_def in_flight_def empty_cache_def)
next
  case (call st fragment language supervisor)
  then show ?case by (simp add: cache_inv_call)
next
  case (answer st i outcome)
  then show ?case by (simp add: cache_inv_answer)
qed

lemma distinct_map_filterI:
  assumes "\<forall>i<length xs. \<forall>j<length xs.
      P (xs ! i) \<and> P (xs ! j) \<and> f (xs ! i) = f (xs ! j) \<longrightarrow> i = j"
  shows "distinct (map f (filter P xs))"
  using assms
proof (induction xs rule: rev_induct)
  case Nil
  show ?case by simp
next
  case (snoc x xs)
  have "\<forall>i<length xs. \<forall>j<length xs.
      P (xs ! i) \<and> P (xs ! j) \<and> f (xs ! i) = f (xs ! j) \<longrightarrow> i = j"
  proof (intro allI impI)
    fix i j
    assume "i < length xs" "j < length xs"
      "P (xs ! i) \<and> P (xs ! j) \<and> f (xs ! i) = f (xs ! j)"
    with snoc.prems [rule_format, of i j] show "i = j"
      by (simp add: nth_append)
  qed
  then have IH: "distinct (map f (filter P xs))" by (rule snoc.IH)
  have "f x \<notin> f ` set (filter P xs)" if "P x"
  proof
    assume "f x \<in> f ` set (filter P xs)"
    then obtain i where "i < length xs" "P (xs ! i)" "f (xs ! i) = f x"
      by (auto simp: in_set_conv_nth)
    with snoc.prems [rule_format, of i "length xs"] that show False
      by (simp add: nth_append)
  qed
  with IH show ?case by simp
qed

lemma cache_inv_distinct:
  assumes "cache_inv st"
  shows "distinct (fingerprints_in_flight st)"
  unfolding fingerprints_in_flight_def
proof (intro distinct_map_filterI allI impI)
  fix i j
  assume "i < length (requests st)" "j < length (requests st)"
    and "req_promise (requests st ! i) = Pending \<and> req_promise (requests st ! j) = Pending
      \<and> req_fingerprint (requests st ! i) = req_fingerprint (requests st ! j)"
  then have "in_flight st i" "in_flight st j"
    and eq: "req_fingerprint (requests st ! i) = req_fingerprint (requests st ! j)"
    by (simp_all add: in_flight_def)
  with assms have "translations st (req_fingerprint (requests st ! i)) = Some i"
    "translations st (req_fingerprint (requests st ! j)) = Some j"
    unfolding cache_inv_def by blast+
  with eq show "i = j" by (metis option.inject)
qed

subsection \<open>Sample runs\<close>

lemmas fetcher_defs =
  fingerprint_def fragment_part_def fetch_path_def empty_cache_def example_metadata_def
  colliding_metadata_def not_found_def fetchTranslation_def in_flight_def settle_def
  resolved_with_def on_fetched_def metadata_read_def Let_def

lemma de_pending_eq:
  "de_pending =
     \<lparr>translations = [''de-d41d8c.json'' \<mapsto> 0],
      requests = [\<lparr>req_path = ''/static/translations/de-d41d8c.json'',
                   req_fingerprint = ''de-d41d8c.json'', req_fragment = None,
                   req_language = ''de'', req_supervisor = False, req_promise = Pending\<rparr>]\<rparr>"
  by (simp add: de_pending_def getTranslation.simps fetcher_defs)

lemma two_pending_eq:
  "two_pending =
     \<lparr>translations = [''de-d41d8c.json'' \<mapsto> 0, ''en-abc.json'' \<mapsto> 1],
      requests = [\<lparr>req_path = ''/static/translations/de-d41d8c.json'',
                   req_fingerprint = ''de-d41d8c.json'', req_fragment = None,
                   req_language = ''de'', req_supervisor = False, req_promise = Pending\<rparr>,
                  \<lparr>req_path = ''/static/translations/en-abc.json'',
                   req_fingerprint = ''en-abc.json'', req_fragment = None,
                   req_language = ''en'', req_supervisor = False, req_promise = Pending\<rparr>]\<rparr>"
  by (simp add: two_pending_def de_pending_eq getTranslation.simps fetcher_defs)

lemma de_failed_eq:
  "de_failed =
     \<lparr>translations = [''en-abc.json'' \<mapsto> 1],
      requests = [\<lparr>req_path = ''/static/translations/de-d41d8c.json'',
                   req_fingerprint = ''de-d41d8c.json'', req_fragment = None,
                   req_language = ''de'', req_supervisor = False, req_promise = Follows 1\<rparr>,
                  \<lparr>req_path = ''/static/translations/en-abc.json'',
                   req_fingerprint = ''en-abc.json'', req_fragment = None,
                   req_language = ''en'', req_supervisor = False, req_promise = Pending\<rparr>]\<rparr>"
  by (simp add: de_failed_def de_pending_eq getTranslation.simps fetcher_defs fun_upd_twist)

lemma en_GB_failed_eq:
  "en_GB_failed =
     \<lparr>translations = [''en-GB-abc.json'' \<mapsto> 1],
      requests = [\<lparr>req_path = ''/static/translations/en-GB-abc.json'',
                   req_fingerprint = ''en-GB-abc.json'', req_fragment = None,
                   req_language = ''en-GB'', req_supervisor = False, req_promise = Follows 1\<rparr>,
                  \<lparr>req_path = ''/static/translations/en-GB-abc.json'',
                   req_fingerprint = ''en-GB-abc.json'', req_fragment = None,
                   req_language = ''en'', req_supervisor = False, req_promise = Pending\<rparr>]\<rparr>"
  by (simp add: en_GB_failed_def getTranslation.simps fetcher_defs)

subsection \<open>One fetch per fingerprint\<close>

text \<open>
  Claim C3. At most one fetch is in flight per fingerprint: in every state the module can
  reach, the fingerprints of the requests in flight are pairwise distinct. A call of
  \<open>getTranslation\<close> issues a request only when the cache has no entry for the fingerprint
  it computes, and it installs the pending entry in the same step, before it returns and
  so before any suspension point. A call that finds an entry for its fingerprint returns
  that entry and issues no request.
\<close>

theorem one_fetch_per_fingerprint:
  "(reachable md st \<longrightarrow> distinct (fingerprints_in_flight st))
   \<and> (getTranslation md fragment language supervisor st = (r, st') \<and> requests st' \<noteq> requests st
      \<longrightarrow> (\<exists>new. requests st' = requests st @ [new] \<and> req_promise new = Pending
            \<and> translations st (req_fingerprint new) = None
            \<and> translations st' (req_fingerprint new) = Some (length (requests st))
            \<and> r = Cached (length (requests st))))
   \<and> (map_of md language = Some m \<and> translations st (fingerprint fragment language m) = None
      \<longrightarrow> getTranslation md fragment language supervisor st
           = (Cached (length (requests st)),
              st\<lparr>translations :=
                   (translations st)(fingerprint fragment language m \<mapsto> length (requests st)),
                 requests := requests st @
                   [\<lparr>req_path = fetch_path (fingerprint fragment language m) supervisor,
                     req_fingerprint = fingerprint fragment language m,
                     req_fragment = fragment, req_language = language,
                     req_supervisor = supervisor, req_promise = Pending\<rparr>]\<rparr>))
   \<and> (map_of md language = Some m \<and> translations st (fingerprint fragment language m) = Some p
      \<longrightarrow> getTranslation md fragment language supervisor st = (Cached p, st))"
proof (intro conjI impI)
  assume "reachable md st"
  then show "distinct (fingerprints_in_flight st)"
    by (intro cache_inv_distinct reachable_cache_inv)
next
  assume h: "getTranslation md fragment language supervisor st = (r, st') \<and> requests st' \<noteq> requests st"
  show "\<exists>new. requests st' = requests st @ [new] \<and> req_promise new = Pending
            \<and> translations st (req_fingerprint new) = None
            \<and> translations st' (req_fingerprint new) = Some (length (requests st))
            \<and> r = Cached (length (requests st))"
  proof (cases rule: getTranslation_cases [of md fragment language supervisor st])
    case (thrown e)
    with h have "st' = st" by simp
    with h show ?thesis by blast
  next
    case (cached p fp)
    with h have "st' = st" by simp
    with h show ?thesis by blast
  next
    case (fetch new)
    with h show ?thesis
      by (intro exI [of _ new]) auto
  qed
next
  assume "map_of md language = Some m \<and> translations st (fingerprint fragment language m) = None"
  then show "getTranslation md fragment language supervisor st
           = (Cached (length (requests st)),
              st\<lparr>translations :=
                   (translations st)(fingerprint fragment language m \<mapsto> length (requests st)),
                 requests := requests st @
                   [\<lparr>req_path = fetch_path (fingerprint fragment language m) supervisor,
                     req_fingerprint = fingerprint fragment language m,
                     req_fragment = fragment, req_language = language,
                     req_supervisor = supervisor, req_promise = Pending\<rparr>]\<rparr>)"
    by (simp add: getTranslation_fetch)
next
  assume "map_of md language = Some m \<and> translations st (fingerprint fragment language m) = Some p"
  then show "getTranslation md fragment language supervisor st = (Cached p, st)"
    by (simp add: getTranslation_cached)
qed

lemma reachable_two_pending: "reachable example_metadata two_pending"
  unfolding two_pending_def de_pending_def by (intro reachable.call reachable.start)

theorem one_fetch_per_fingerprint_witness:
  "reachable example_metadata two_pending
   \<and> fingerprints_in_flight two_pending = [''de-d41d8c.json'', ''en-abc.json'']
   \<and> distinct (fingerprints_in_flight two_pending)
   \<and> getTranslation example_metadata None ''de'' True two_pending = (Cached 0, two_pending)"
proof -
  note t = one_fetch_per_fingerprint [of example_metadata two_pending None "''de''" True
      "Cached 0" two_pending "\<lparr>hash = ''d41d8c''\<rparr>" 0]
  have m: "map_of example_metadata ''de'' = Some \<lparr>hash = ''d41d8c''\<rparr>"
    by (simp add: example_metadata_def)
  have c: "translations two_pending (fingerprint None ''de'' \<lparr>hash = ''d41d8c''\<rparr>) = Some 0"
    by (simp add: two_pending_eq fingerprint_def fragment_part_def)
  have f: "fingerprints_in_flight two_pending = [''de-d41d8c.json'', ''en-abc.json'']"
    by (simp add: two_pending_eq fingerprints_in_flight_def)
  from t reachable_two_pending have "distinct (fingerprints_in_flight two_pending)"
    by blast
  moreover from t m c
  have "getTranslation example_metadata None ''de'' True two_pending = (Cached 0, two_pending)"
    by blast
  ultimately show ?thesis
    using reachable_two_pending f by blast
qed

subsection \<open>A failed fetch\<close>





text \<open>
  On \<open>colliding_metadata\<close> the request for \<open>en-GB\<close> fails and the fallback to \<open>en\<close> has
  the same fingerprint: the fallback is the call that issues the new request, and a call
  for \<open>en-GB\<close> after it finds the entry of that request.
\<close>

lemma colliding_fallback_retries:
  "map req_path (requests en_GB_failed)
     = [''/static/translations/en-GB-abc.json'', ''/static/translations/en-GB-abc.json'']
   \<and> translations en_GB_failed ''en-GB-abc.json'' = Some 1
   \<and> in_flight en_GB_failed 1
   \<and> getTranslation colliding_metadata None ''en-GB'' False en_GB_failed = (Cached 1, en_GB_failed)"
proof -
  have m: "map_of colliding_metadata ''en-GB'' = Some \<lparr>hash = ''abc''\<rparr>"
    by (simp add: colliding_metadata_def)
  have f: "fingerprint None ''en-GB'' \<lparr>hash = ''abc''\<rparr> = ''en-GB-abc.json''"
    by (simp add: fingerprint_def fragment_part_def)
  have t: "translations en_GB_failed ''en-GB-abc.json'' = Some 1"
    by (simp add: en_GB_failed_eq)
  have "getTranslation colliding_metadata None ''en-GB'' False en_GB_failed
      = (Cached 1, en_GB_failed)"
    by (rule getTranslation_cached [OF m]) (simp only: f t)
  moreover have "map req_path (requests en_GB_failed)
     = [''/static/translations/en-GB-abc.json'', ''/static/translations/en-GB-abc.json'']"
    "in_flight en_GB_failed 1"
    by (simp_all add: en_GB_failed_eq in_flight_def)
  ultimately show ?thesis
    using t by blast
qed


text \<open>
  The scenario of the specification: the fetch for \<open>de\<close> fails with status 404, the
  fetch for \<open>en\<close> succeeds, and the caller that asked for \<open>de\<close> gets the bundle of \<open>en\<close>.
\<close>

lemma fallback_resolves_with_en:
  "req_promise (requests de_failed ! 0) = Follows 1
   \<and> awaited en_loaded 0 = Fulfilled ''en'' ''{}''"
  by (simp add: en_loaded_def de_failed_eq awaited_def fetcher_defs)

end
